theory Spec2Isabelle
  imports Main "HOL-Library.Char_ord" "HOL-Library.List_Lexorder"
begin

section \<open>Values of the scanner\<close>

text \<open>
  \<^verbatim>\<open>scripts/python/network-scanner.py\<close> keeps every host as a dictionary with the keys
  \<^verbatim>\<open>ip\<close>, \<^verbatim>\<open>open_ports\<close> and \<^verbatim>\<open>scanned_at\<close>, built only by \<^verbatim>\<open>scan_host_ports\<close>:
  the address is the string scapy reports, the ports are Python integers, the time stamp is
  the string \<^verbatim>\<open>datetime.now().isoformat()\<close> returns.  Strings are \<^typ>\<open>string\<close>
  (characters with code points below 256), ordered as Python orders \<^verbatim>\<open>str\<close>: by code
  point, a proper prefix first.
\<close>

record scan_record =
  ip :: string
  open_ports :: "int list"
  scanned_at :: string

text \<open>
  The baseline is whatever \<^verbatim>\<open>json.load\<close> returns, so it is modelled as a decoded JSON
  document and the code's subscripts and iterations on it are modelled with the exceptions
  Python raises.  Numbers with a fraction or an exponent (Python floats) are left out.
  The keys of a \<open>JObj\<close> are distinct, as \<^verbatim>\<open>json.load\<close> yields them.
\<close>

datatype json =
    JNull
  | JBool bool
  | JInt int
  | JStr string
  | JArr "json list"
  | JObj "(string \<times> json) list"

text \<open>The hashable values among them: what can be a dictionary key or a set element.\<close>

datatype hval = HNone | HBool bool | HInt int | HStr string

datatype py_error = TypeError | KeyError | OSError | PermissionError

record change_record =
  change_ip :: string
  added_ports :: "hval list"
  removed_ports :: "hval list"
  detected_at :: string

subsection \<open>Python sets and dictionaries of hashable values\<close>

text \<open>
  Python compares \<^verbatim>\<open>True\<close> equal to \<^verbatim>\<open>1\<close> and \<^verbatim>\<open>False\<close> equal to \<^verbatim>\<open>0\<close>; values of
  different kinds are otherwise different.
\<close>

fun num_of :: "hval \<Rightarrow> int option" where
  "num_of (HBool b) = Some (if b then 1 else 0)"
| "num_of (HInt i) = Some i"
| "num_of HNone = None"
| "num_of (HStr s) = None"

definition py_eq :: "hval \<Rightarrow> hval \<Rightarrow> bool" where
  "py_eq a b =
     (case num_of a of
        Some x \<Rightarrow> (case num_of b of Some y \<Rightarrow> x = y | None \<Rightarrow> False)
      | None \<Rightarrow> (case num_of b of Some y \<Rightarrow> False | None \<Rightarrow> a = b))"

text \<open>
  A set is the list of its elements, no two of them equal for Python; an element that is
  already there keeps its first representative, as \<^verbatim>\<open>set.add\<close> does.
\<close>

definition py_member :: "hval \<Rightarrow> hval list \<Rightarrow> bool" where
  "py_member x s = list_ex (py_eq x) s"

definition py_add :: "hval list \<Rightarrow> hval \<Rightarrow> hval list" where
  "py_add s x = (if py_member x s then s else s @ [x])"

definition py_set :: "hval list \<Rightarrow> hval list" where
  "py_set xs = foldl py_add [] xs"

definition py_diff :: "hval list \<Rightarrow> hval list \<Rightarrow> hval list" where
  "py_diff a b = filter (\<lambda>x. \<not> py_member x b) a"

text \<open>
  \<^verbatim>\<open>sorted\<close> compares with \<^verbatim>\<open><\<close>: numbers (booleans among them) by value, strings by
  code point.  \<^verbatim>\<open>None\<close> has no order and numbers are not comparable with strings, so a
  set of two or more elements that is not all numbers or all strings raises
  \<^verbatim>\<open>TypeError\<close>; a set of at most one element is never compared.
\<close>

fun str_of :: "hval \<Rightarrow> string option" where
  "str_of (HStr s) = Some s"
| "str_of HNone = None"
| "str_of (HBool b) = None"
| "str_of (HInt i) = None"

definition py_sorted :: "hval list \<Rightarrow> py_error + hval list" where
  "py_sorted s =
     (if length s \<le> 1 then Inr s
      else if list_all (\<lambda>x. num_of x \<noteq> None) s then Inr (sort_key (\<lambda>x. the (num_of x)) s)
      else if list_all (\<lambda>x. str_of x \<noteq> None) s then Inr (sort_key (\<lambda>x. the (str_of x)) s)
      else Inl TypeError)"

text \<open>
  A dictionary is the list of its items; storing under a key that is already there
  replaces the value and keeps the key.
\<close>

type_synonym port_dict = "(hval \<times> hval list) list"

fun dict_set :: "port_dict \<Rightarrow> hval \<Rightarrow> hval list \<Rightarrow> port_dict" where
  "dict_set [] k v = [(k, v)]"
| "dict_set ((k', v') # d) k v =
     (if py_eq k k' then (k', v) # d else (k', v') # dict_set d k v)"

fun dict_get :: "port_dict \<Rightarrow> hval \<Rightarrow> hval list \<Rightarrow> hval list" where
  "dict_get [] k dflt = dflt"
| "dict_get ((k', v') # d) k dflt = (if py_eq k k' then v' else dict_get d k dflt)"

subsection \<open>Subscripts and iteration on a decoded document\<close>

fun py_getitem :: "json \<Rightarrow> string \<Rightarrow> py_error + json" where
  "py_getitem (JObj kvs) k = (case map_of kvs k of None \<Rightarrow> Inl KeyError | Some v \<Rightarrow> Inr v)"
| "py_getitem j k = Inl TypeError"

fun py_iter :: "json \<Rightarrow> py_error + json list" where
  "py_iter (JArr xs) = Inr xs"
| "py_iter (JObj kvs) = Inr (map (\<lambda>kv. JStr (fst kv)) kvs)"
| "py_iter (JStr s) = Inr (map (\<lambda>c. JStr [c]) s)"
| "py_iter j = Inl TypeError"

fun to_hashable :: "json \<Rightarrow> py_error + hval" where
  "to_hashable JNull = Inr HNone"
| "to_hashable (JBool b) = Inr (HBool b)"
| "to_hashable (JInt i) = Inr (HInt i)"
| "to_hashable (JStr s) = Inr (HStr s)"
| "to_hashable (JArr xs) = Inl TypeError"
| "to_hashable (JObj kvs) = Inl TypeError"

fun hash_all :: "json list \<Rightarrow> py_error + hval list" where
  "hash_all [] = Inr []"
| "hash_all (j # js) =
     (case to_hashable j of
        Inl e \<Rightarrow> Inl e
      | Inr h \<Rightarrow> (case hash_all js of Inl e \<Rightarrow> Inl e | Inr hs \<Rightarrow> Inr (h # hs)))"

text \<open>\<^verbatim>\<open>set(x)\<close> of a decoded value \<open>x\<close>: iterate it, hash each element.\<close>

definition set_of_json :: "json \<Rightarrow> py_error + hval list" where
  "set_of_json x =
     (case py_iter x of
        Inl e \<Rightarrow> Inl e
      | Inr js \<Rightarrow> (case hash_all js of Inl e \<Rightarrow> Inl e | Inr hs \<Rightarrow> Inr (py_set hs)))"

section \<open>Step 4: compare with baseline\<close>

text \<open>
  Line 122, \<^verbatim>\<open>old_map = {h['ip']: set(h['open_ports']) for h in old}\<close>.  For each element
  the key expression is evaluated first, then the value expression, then the item is
  stored, which hashes the key.
\<close>

fun old_map_items :: "port_dict \<Rightarrow> json list \<Rightarrow> py_error + port_dict" where
  "old_map_items d [] = Inr d"
| "old_map_items d (h # hs) =
     (case py_getitem h ''ip'' of
        Inl e \<Rightarrow> Inl e
      | Inr k \<Rightarrow>
          (case py_getitem h ''open_ports'' of
             Inl e \<Rightarrow> Inl e
           | Inr p \<Rightarrow>
               (case set_of_json p of
                  Inl e \<Rightarrow> Inl e
                | Inr v \<Rightarrow>
                    (case to_hashable k of
                       Inl e \<Rightarrow> Inl e
                     | Inr hk \<Rightarrow> old_map_items (dict_set d hk v) hs))))"

definition build_old_map :: "json \<Rightarrow> py_error + port_dict" where
  "build_old_map old =
     (case py_iter old of Inl e \<Rightarrow> Inl e | Inr hs \<Rightarrow> old_map_items [] hs)"

text \<open>Lines 123 to 137, the loop over \<^verbatim>\<open>current\<close> with its accumulator \<^verbatim>\<open>changes\<close>.\<close>

fun compare_loop ::
  "port_dict \<Rightarrow> change_record list \<Rightarrow> scan_record list \<Rightarrow> py_error + change_record list"
where
  "compare_loop old_map changes [] = Inr changes"
| "compare_loop old_map changes (host # rest) =
     (let new_ports = py_set (map HInt (open_ports host));
          old_ports = dict_get old_map (HStr (ip host)) [];
          added = py_diff new_ports old_ports;
          removed = py_diff old_ports new_ports
      in if added \<noteq> [] \<or> removed \<noteq> [] then
           (case py_sorted added of
              Inl e \<Rightarrow> Inl e
            | Inr a \<Rightarrow>
                (case py_sorted removed of
                   Inl e \<Rightarrow> Inl e
                 | Inr r \<Rightarrow>
                     compare_loop old_map
                       (changes @ [\<lparr>change_ip = ip host, added_ports = a,
                                    removed_ports = r, detected_at = scanned_at host\<rparr>])
                       rest))
         else compare_loop old_map changes rest)"

text \<open>
  What the files hold.  \<open>JsonFile j\<close> is a text \<^verbatim>\<open>json.load\<close> decodes to \<open>j\<close>;
  the other two are texts it rejects: the table \<^verbatim>\<open>save_csv\<close> writes (it starts with the
  header line) and any other text.
\<close>

datatype file_content = JsonFile json | CsvFile "scan_record list" | OtherFile string

text \<open>What the run prints, one constructor for each \<^verbatim>\<open>print\<close> of the script.\<close>

datatype message =
    ScanningNetwork string
  | NoLiveHosts
  | FoundLiveHosts nat
  | ScanningHost string
  | JsonSaved string
  | CsvSaved string
  | CouldNotLoadBaseline string
  | HostsChanged nat string
  | NoChanges
  | ScanComplete string string

record world =
  files :: "string \<rightharpoonup> file_content"
  console :: "message list"

definition say :: "message \<Rightarrow> world \<Rightarrow> world" where
  "say m w = w\<lparr>console := console w @ [m]\<rparr>"

text \<open>
  Lines 115 to 120: \<^verbatim>\<open>open\<close> and \<^verbatim>\<open>json.load\<close> under a bare \<^verbatim>\<open>except\<close>.  \<open>None\<close> is the
  handler's branch (no such file, or a text that does not decode).
\<close>

definition load_baseline :: "string \<Rightarrow> world \<Rightarrow> json option" where
  "load_baseline baseline_path w =
     (case files w baseline_path of
        Some (JsonFile j) \<Rightarrow> Some j
      | _ \<Rightarrow> None)"

text \<open>
  \<^verbatim>\<open>compare_with_baseline\<close>, lines 112 to 137.  The path is \<^verbatim>\<open>args.baseline\<close>: \<open>None\<close>
  when the option is not given.  \<^verbatim>\<open>not baseline_path\<close> holds for \<^verbatim>\<open>None\<close> and for the
  empty string.  The result is the exception that leaves the function, or the list it
  returns, with the world after its prints.
\<close>

definition compare_with_baseline ::
  "scan_record list \<Rightarrow> string option \<Rightarrow> world \<Rightarrow> (py_error + change_record list) \<times> world"
where
  "compare_with_baseline current baseline_path w =
     (case baseline_path of
        None \<Rightarrow> (Inr [], w)
      | Some path \<Rightarrow>
          if path = [] then (Inr [], w)
          else
            (case load_baseline path w of
               None \<Rightarrow> (Inr [], say (CouldNotLoadBaseline path) w)
             | Some old \<Rightarrow>
                 (case build_old_map old of
                    Inl e \<Rightarrow> (Inl e, w)
                  | Inr old_map \<Rightarrow> (compare_loop old_map [] current, w))))"

section \<open>Step 1: discover live hosts\<close>

text \<open>
  \<^verbatim>\<open>discover_hosts\<close>, lines 50 to 56.  The reply of scapy's \<^verbatim>\<open>srp\<close> is a parameter: the
  exception it raises (the ARP sweep needs a raw socket), or the source addresses of the
  answers in the order they arrived.  \<^verbatim>\<open>sorted\<close> on a list of \<^verbatim>\<open>str\<close> is the sort of
  \<^typ>\<open>string\<close> in its lexicographic order.
\<close>

definition discover_hosts ::
  "string \<Rightarrow> py_error + string list \<Rightarrow> world \<Rightarrow> (py_error + string list) \<times> world"
where
  "discover_hosts network answered w =
     (let w1 = say (ScanningNetwork network) w
      in case answered of
           Inl e \<Rightarrow> (Inl e, w1)
         | Inr psrcs \<Rightarrow> (Inr (sort psrcs), w1))"

section \<open>Step 2: port scan\<close>

definition THREADS :: nat where
  "THREADS = 100"

text \<open>
  What one probe meets, a parameter of the model: \<^verbatim>\<open>socket.socket\<close> raises; or
  \<^verbatim>\<open>connect_ex\<close> raises; or \<^verbatim>\<open>connect_ex\<close> returns a code (0 when the connection is
  made, an errno when it is refused or times out) and \<^verbatim>\<open>close\<close> then succeeds
  (\<open>True\<close>) or raises.
\<close>

datatype attempt = SocketError | ConnectError | ConnectEx int bool

text \<open>The probe that makes its connection: \<^verbatim>\<open>connect_ex\<close> returns 0.\<close>

fun connected :: "attempt \<Rightarrow> bool" where
  "connected (ConnectEx result close_ok) = (result = 0)"
| "connected SocketError = False"
| "connected ConnectError = False"

text \<open>
  The set of open ports is a list without repetition; \<^verbatim>\<open>open_ports.add(port)\<close> is
  \<^const>\<open>List.insert\<close>.

  The body of the \<^verbatim>\<open>try\<close> of \<^verbatim>\<open>scan_port\<close>, lines 63 to 68: the exception that ends it,
  if any, and the set as it leaves it.  \<^verbatim>\<open>connect_ex\<close> refuses a port outside 0..65535
  with \<^verbatim>\<open>OverflowError\<close> before it connects.
\<close>

datatype thread_exit = Finished | Raised

definition scan_port_try :: "string \<Rightarrow> int \<Rightarrow> int list \<Rightarrow> attempt \<Rightarrow> thread_exit \<times> int list" where
  "scan_port_try ip_addr port found a =
     (case a of
        SocketError \<Rightarrow> (Raised, found)
      | ConnectError \<Rightarrow> (Raised, found)
      | ConnectEx result close_ok \<Rightarrow>
          if port < 0 \<or> 65535 < port then (Raised, found)
          else
            (let found' = (if result = 0 then List.insert port found else found)
             in (if close_ok then Finished else Raised, found')))"

text \<open>\<^verbatim>\<open>scan_port\<close>, lines 61 to 70: the bare \<^verbatim>\<open>except: pass\<close> ends every exception.\<close>

definition scan_port :: "string \<Rightarrow> int \<Rightarrow> int list \<Rightarrow> attempt \<Rightarrow> thread_exit \<times> int list" where
  "scan_port ip_addr port found a =
     (case scan_port_try ip_addr port found a of
        (Raised, s) \<Rightarrow> (Finished, s)
      | (Finished, s) \<Rightarrow> (Finished, s))"

text \<open>
  \<^verbatim>\<open>scan_host_ports\<close>, lines 72 to 89.  The main thread's steps are recorded as a trace:
  \<open>Start t\<close> for \<^verbatim>\<open>t.start()\<close> and \<open>Join t\<close> for the return of \<^verbatim>\<open>t.join()\<close>, a thread
  being named by its number in the order of creation.  A probe runs inside its thread,
  so it is in flight only between these two events.  The threads only add to the set, and
  additions commute, so the set after the joins does not depend on the schedule: the
  model adds a thread's port when the thread is started.  \<open>att t\<close> is what the probe of
  thread \<open>t\<close> meets.  Creating and starting a thread is taken to succeed.
\<close>

datatype event = Start nat | Join nat

record scan_state =
  threads :: "nat list"
  started :: nat
  open_set :: "int list"
  trace :: "event list"

definition join_all :: "scan_state \<Rightarrow> scan_state" where
  "join_all s = s\<lparr>trace := trace s @ map Join (threads s), threads := []\<rparr>"

fun scan_loop :: "string \<Rightarrow> (nat \<Rightarrow> attempt) \<Rightarrow> int list \<Rightarrow> scan_state \<Rightarrow> scan_state" where
  "scan_loop ip_addr att [] s = s"
| "scan_loop ip_addr att (port # ports) s =
     (let t = started s;
          s1 = s\<lparr>threads := threads s @ [t],
                 started := Suc t,
                 open_set := snd (scan_port ip_addr port (open_set s) (att t)),
                 trace := trace s @ [Start t]\<rparr>;
          s2 = (if THREADS \<le> length (threads s1) then join_all s1 else s1)
      in scan_loop ip_addr att ports s2)"

definition scan_run :: "string \<Rightarrow> int list \<Rightarrow> (nat \<Rightarrow> attempt) \<Rightarrow> scan_state" where
  "scan_run ip_addr ports att =
     join_all (scan_loop ip_addr att ports
       \<lparr>threads = [], started = 0, open_set = [], trace = []\<rparr>)"

definition scan_host_ports :: "string \<Rightarrow> int list \<Rightarrow> (nat \<Rightarrow> attempt) \<Rightarrow> string \<Rightarrow> scan_record" where
  "scan_host_ports ip_addr ports att now =
     \<lparr>ip = ip_addr,
      open_ports = sort (open_set (scan_run ip_addr ports att)),
      scanned_at = now\<rparr>"

text \<open>The threads started and not yet joined after a trace.\<close>

fun running :: "nat list \<Rightarrow> event list \<Rightarrow> nat list" where
  "running r [] = r"
| "running r (Start t # es) = running (r @ [t]) es"
| "running r (Join t # es) = running (removeAll t r) es"

section \<open>Step 3: export results\<close>

definition encode_record :: "scan_record \<Rightarrow> json" where
  "encode_record h =
     JObj [(''ip'', JStr (ip h)),
           (''open_ports'', JArr (map JInt (open_ports h))),
           (''scanned_at'', JStr (scanned_at h))]"

definition encode_results :: "scan_record list \<Rightarrow> json" where
  "encode_results results = JArr (map encode_record results)"

fun json_of_hval :: "hval \<Rightarrow> json" where
  "json_of_hval HNone = JNull"
| "json_of_hval (HBool b) = JBool b"
| "json_of_hval (HInt i) = JInt i"
| "json_of_hval (HStr s) = JStr s"

definition encode_change :: "change_record \<Rightarrow> json" where
  "encode_change c =
     JObj [(''ip'', JStr (change_ip c)),
           (''added_ports'', JArr (map json_of_hval (added_ports c))),
           (''removed_ports'', JArr (map json_of_hval (removed_ports c))),
           (''detected_at'', JStr (detected_at c))]"

definition encode_changes :: "change_record list \<Rightarrow> json" where
  "encode_changes changes = JArr (map encode_change changes)"

text \<open>
  \<^verbatim>\<open>save_json\<close> and \<^verbatim>\<open>save_csv\<close>, lines 94 to 107.  \<^verbatim>\<open>open(path, 'w')\<close> raises where the
  path cannot be written (\<open>writable\<close>, a parameter); the list of dictionaries is passed
  as the document \<^verbatim>\<open>json.dump\<close> writes.
\<close>

definition save_json :: "json \<Rightarrow> string \<Rightarrow> (string \<Rightarrow> bool) \<Rightarrow> world \<Rightarrow> py_error option \<times> world" where
  "save_json doc path writable w =
     (if writable path
      then (None, say (JsonSaved path) (w\<lparr>files := (files w)(path \<mapsto> JsonFile doc)\<rparr>))
      else (Some OSError, w))"

definition save_csv ::
  "scan_record list \<Rightarrow> string \<Rightarrow> (string \<Rightarrow> bool) \<Rightarrow> world \<Rightarrow> py_error option \<times> world"
where
  "save_csv results path writable w =
     (if results = [] then (None, w)
      else if writable path
      then (None, say (CsvSaved path) (w\<lparr>files := (files w)(path \<mapsto> CsvFile results)\<rparr>))
      else (Some OSError, w))"

section \<open>Main\<close>

text \<open>
  What the run meets outside the program: the reply to the ARP sweep, what the probe of
  thread \<open>t\<close> on the \<open>i\<close>-th host meets (\<open>probe i t\<close>), the clock read after the \<open>i\<close>-th
  host is scanned, and which paths can be written.
\<close>

record env =
  arp_reply :: "py_error + string list"
  probe :: "nat \<Rightarrow> nat \<Rightarrow> attempt"
  clock :: "nat \<Rightarrow> string"
  writable :: "string \<Rightarrow> bool"

text \<open>Lines 163 to 167, the loop over \<^verbatim>\<open>live_hosts\<close>; \<open>i\<close> counts the hosts scanned.\<close>

fun scan_hosts ::
  "env \<Rightarrow> int list \<Rightarrow> nat \<Rightarrow> string list \<Rightarrow> scan_record list \<Rightarrow> world \<Rightarrow> scan_record list \<times> world"
where
  "scan_hosts e ports i [] results w = (results, w)"
| "scan_hosts e ports i (ip_addr # rest) results w =
     (let w1 = say (ScanningHost ip_addr) w;
          result = scan_host_ports ip_addr ports (probe e i) (clock e i)
      in scan_hosts e ports (Suc i) rest (results @ [result]) w1)"

text \<open>
  \<^verbatim>\<open>main\<close>, lines 154 to 184, from the values lines 143 to 152 resolve: the network range,
  the list of ports, the output prefix and the baseline path (\<open>None\<close> without
  \<^verbatim>\<open>--baseline\<close>).  The result is the exception that ends the run, if any, and the world
  it leaves.
\<close>

definition main ::
  "string \<Rightarrow> int list \<Rightarrow> string \<Rightarrow> string option \<Rightarrow> env \<Rightarrow> world \<Rightarrow> py_error option \<times> world"
where
  "main network ports output baseline e w =
     (case discover_hosts network (arp_reply e) w of
        (Inl err, w1) \<Rightarrow> (Some err, w1)
      | (Inr live_hosts, w1) \<Rightarrow>
          if live_hosts = [] then (None, say NoLiveHosts w1)
          else
            (let w2 = say (FoundLiveHosts (length live_hosts)) w1;
                 (results, w3) = scan_hosts e ports 0 live_hosts [] w2;
                 json_path = output @ ''.json'';
                 csv_path = output @ ''.csv''
             in case save_json (encode_results results) json_path (writable e) w3 of
                  (Some err, w4) \<Rightarrow> (Some err, w4)
                | (None, w4) \<Rightarrow>
                    (case save_csv results csv_path (writable e) w4 of
                       (Some err, w5) \<Rightarrow> (Some err, w5)
                     | (None, w5) \<Rightarrow>
                         (case compare_with_baseline results baseline w5 of
                            (Inl err, w6) \<Rightarrow> (Some err, w6)
                          | (Inr changes, w6) \<Rightarrow>
                              if changes \<noteq> [] then
                                (let change_path = output @ ''_changes.json''
                                 in case save_json (encode_changes changes) change_path
                                           (writable e) w6 of
                                      (Some err, w7) \<Rightarrow> (Some err, w7)
                                    | (None, w7) \<Rightarrow>
                                        (None,
                                         say (ScanComplete json_path csv_path)
                                           (say (HostsChanged (length changes) change_path) w7)))
                              else
                                (None,
                                 say (ScanComplete json_path csv_path) (say NoChanges w6))))))"

section \<open>Notions of the specification\<close>

text \<open>
  The numeric value of a host address, the order the specification gives to
  \<^verbatim>\<open>HostAddress\<close>: four decimal fields below 256 separated by dots, read as one number
  in base 256.  The script has no such notion; it is defined here to state the claim
  about the order of the results.
\<close>

fun split_dots :: "string \<Rightarrow> string list" where
  "split_dots [] = [[]]"
| "split_dots (c # cs) =
     (if c = CHR ''.'' then [] # split_dots cs
      else (case split_dots cs of [] \<Rightarrow> [[c]] | f # fs \<Rightarrow> (c # f) # fs))"

definition digit_of :: "char \<Rightarrow> int option" where
  "digit_of c =
     (let n = (of_char c :: int) in if 48 \<le> n \<and> n \<le> 57 then Some (n - 48) else None)"

fun decimal :: "int \<Rightarrow> string \<Rightarrow> int option" where
  "decimal acc [] = Some acc"
| "decimal acc (c # cs) =
     (case digit_of c of None \<Rightarrow> None | Some d \<Rightarrow> decimal (10 * acc + d) cs)"

definition field_value :: "string \<Rightarrow> int option" where
  "field_value f =
     (if f = [] then None
      else (case decimal 0 f of
              None \<Rightarrow> None
            | Some n \<Rightarrow> if n < 256 then Some n else None))"

definition ipv4_value :: "string \<Rightarrow> int option" where
  "ipv4_value s =
     (case map field_value (split_dots s) of
        [Some a, Some b, Some c, Some d] \<Rightarrow> Some (((a * 256 + b) * 256 + c) * 256 + d)
      | _ \<Rightarrow> None)"

definition numeric_le :: "string \<Rightarrow> string \<Rightarrow> bool" where
  "numeric_le a b =
     (case ipv4_value a of
        None \<Rightarrow> False
      | Some x \<Rightarrow> (case ipv4_value b of None \<Rightarrow> False | Some y \<Rightarrow> x \<le> y))"

text \<open>
  The baseline comparison as the specification words it, on a baseline that is a result
  set: the ports of a host in the baseline (the empty set for a host that is not there;
  the last record of the host, should the baseline hold several), the two differences,
  and a change record exactly when one of them is not empty.
\<close>

definition spec_baseline_ports :: "scan_record list \<Rightarrow> string \<Rightarrow> int set" where
  "spec_baseline_ports baseline a =
     (case find (\<lambda>h. ip h = a) (rev baseline) of
        None \<Rightarrow> {}
      | Some h \<Rightarrow> set (open_ports h))"

definition spec_change :: "scan_record list \<Rightarrow> scan_record \<Rightarrow> change_record list" where
  "spec_change baseline h =
     (let added = set (open_ports h) - spec_baseline_ports baseline (ip h);
          removed = spec_baseline_ports baseline (ip h) - set (open_ports h)
      in if added \<noteq> {} \<or> removed \<noteq> {}
         then [\<lparr>change_ip = ip h,
                added_ports = map HInt (sorted_list_of_set added),
                removed_ports = map HInt (sorted_list_of_set removed),
                detected_at = scanned_at h\<rparr>]
         else [])"

definition spec_diff :: "scan_record list \<Rightarrow> scan_record list \<Rightarrow> change_record list" where
  "spec_diff current baseline = concat (map (spec_change baseline) current)"

section \<open>The baseline comparison without a baseline\<close>

text \<open>
  C9.  Without a baseline path (the argument absent, or the empty string) the comparison
  returns the empty list of changes and raises nothing, whatever the current results and
  the files are.
\<close>

theorem no_baseline_path_no_changes:
  "baseline_path = None \<or> baseline_path = Some [] \<Longrightarrow>
   compare_with_baseline current baseline_path w = (Inr [], w)"
  by (auto simp: compare_with_baseline_def)

theorem no_baseline_path_no_changes_witness:
  "compare_with_baseline
     [\<lparr>ip = ''10.0.0.5'', open_ports = [22, 80], scanned_at = ''2024-01-01T00:00:00''\<rparr>]
     (Some []) \<lparr>files = Map.empty, console = []\<rparr>
   = (Inr [], \<lparr>files = Map.empty, console = []\<rparr>)"
  using no_baseline_path_no_changes
    [of "Some []"
        "[\<lparr>ip = ''10.0.0.5'', open_ports = [22, 80], scanned_at = ''2024-01-01T00:00:00''\<rparr>]"
        "\<lparr>files = Map.empty, console = []\<rparr>"]
  by simp

section \<open>The port scan of one host\<close>

subsection \<open>One probe\<close>

lemma scan_port_finished: "fst (scan_port ip_addr port found a) = Finished"
  by (cases a) (auto simp: scan_port_def scan_port_try_def Let_def)

lemma scan_port_set:
  "set (snd (scan_port ip_addr port found a)) =
     (if connected a \<and> 0 \<le> port \<and> port \<le> 65535 then insert port (set found) else set found)"
  by (cases a) (auto simp: scan_port_def scan_port_try_def Let_def)

lemma scan_port_failed:
  "\<not> connected a \<Longrightarrow> snd (scan_port ip_addr port found a) = found"
  by (cases a) (auto simp: scan_port_def scan_port_try_def Let_def)

subsection \<open>The loop over the ports\<close>

lemma join_all_fields [simp]:
  "open_set (join_all s) = open_set s" "started (join_all s) = started s"
  "threads (join_all s) = []" "trace (join_all s) = trace s @ map Join (threads s)"
  by (simp_all add: join_all_def)

lemma scan_loop_started: "started (scan_loop ip_addr att ports s) = started s + length ports"
  by (induction ports arbitrary: s) (auto simp: Let_def)

lemma running_append: "running r (xs @ ys) = running (running r xs) ys"
  by (induction r xs rule: running.induct) auto

lemma running_starts: "running r (map Start b) = r @ b"
  by (induction b arbitrary: r) auto

lemma running_joins: "running r (map Join b) = filter (\<lambda>t. t \<notin> set b) r"
proof (induction b arbitrary: r)
  case Nil
  then show ?case by simp
next
  case (Cons t b)
  have "removeAll t r = filter (\<lambda>x. x \<noteq> t) r"
    by (induction r) auto
  then show ?case by (auto simp: Cons.IH intro: filter_cong)
qed

lemma running_batch: "running [] (map Start b @ map Join b) = []"
  by (simp add: running_append running_starts running_joins)

lemma running_batch_prefix:
  "length (running [] (take k (map Start b @ map Join b))) \<le> length b"
proof -
  have "length (running [] (take k (map Start b @ map Join b)))
        = length (filter (\<lambda>t. t \<notin> set (take (k - length b) b)) (take k b))"
    by (simp add: take_map running_append running_starts running_joins)
  also have "\<dots> \<le> length (take k b)"
    by (rule length_filter_le)
  finally show ?thesis by simp
qed

lemma running_batches_prefix:
  "\<forall>b\<in>set bs. length b \<le> n \<Longrightarrow>
   length (running [] (take k (concat (map (\<lambda>b. map Start b @ map Join b) bs)))) \<le> n"
proof (induction bs arbitrary: k)
  case Nil
  then show ?case by simp
next
  case (Cons b bs)
  let ?ev = "map Start b @ map Join b"
  let ?rest = "concat (map (\<lambda>b. map Start b @ map Join b) bs)"
  show ?case
  proof (cases "length ?ev \<le> k")
    case True
    then have "take k (?ev @ ?rest) = ?ev @ take (k - length ?ev) ?rest"
      by simp
    then have "running [] (take k (?ev @ ?rest))
               = running (running [] ?ev) (take (k - length ?ev) ?rest)"
      by (simp only: running_append)
    then have "running [] (take k (?ev @ ?rest)) = running [] (take (k - length ?ev) ?rest)"
      by (simp only: running_batch)
    moreover have "length (running [] (take (k - length ?ev) ?rest)) \<le> n"
      using Cons.prems by (intro Cons.IH) simp
    ultimately show ?thesis by simp
  next
    case False
    then have "take k (?ev @ ?rest) = take k ?ev"
      by simp
    then have "length (running [] (take k (?ev @ ?rest))) = length (running [] (take k ?ev))"
      by (simp only:)
    also have "\<dots> \<le> length b"
      by (rule running_batch_prefix)
    also have "length b \<le> n"
      using Cons.prems by simp
    finally show ?thesis by simp
  qed
qed

lemma scan_loop_batches:
  assumes "length (threads s) < THREADS"
    and "trace s = concat (map (\<lambda>b. map Start b @ map Join b) bs) @ map Start (threads s)"
    and "concat bs @ threads s = [0..<started s]"
    and "\<forall>b\<in>set bs. b \<noteq> [] \<and> length b \<le> THREADS"
  shows "\<exists>bs'. length (threads (scan_loop ip_addr att ports s)) < THREADS
            \<and> trace (scan_loop ip_addr att ports s)
                = concat (map (\<lambda>b. map Start b @ map Join b) bs')
                  @ map Start (threads (scan_loop ip_addr att ports s))
            \<and> concat bs' @ threads (scan_loop ip_addr att ports s)
                = [0..<started (scan_loop ip_addr att ports s)]
            \<and> (\<forall>b\<in>set bs'. b \<noteq> [] \<and> length b \<le> THREADS)"
  using assms
proof (induction ports arbitrary: s bs)
  case Nil
  then show ?case by auto
next
  case (Cons port ports)
  let ?t = "started s"
  let ?s1 = "s\<lparr>threads := threads s @ [?t], started := Suc ?t,
               open_set := snd (scan_port ip_addr port (open_set s) (att ?t)),
               trace := trace s @ [Start ?t]\<rparr>"
  let ?s2 = "if THREADS \<le> length (threads ?s1) then join_all ?s1 else ?s1"
  have step: "scan_loop ip_addr att (port # ports) s = scan_loop ip_addr att ports ?s2"
    by (simp add: Let_def)
  have pos: "0 < THREADS" by (simp add: THREADS_def)
  show ?case
  proof (cases "THREADS \<le> length (threads ?s1)")
    case True
    let ?b = "threads s @ [?t]"
    have len: "length ?b = THREADS"
      using True Cons.prems(1) by simp
    have a1: "length (threads ?s2) < THREADS"
      using True pos by simp
    have a2: "trace ?s2 = concat (map (\<lambda>b. map Start b @ map Join b) (bs @ [?b]))
                 @ map Start (threads ?s2)"
      using True Cons.prems(2) by simp
    have a3: "concat (bs @ [?b]) @ threads ?s2 = [0..<started ?s2]"
      using True Cons.prems(3) by simp
    have a4: "\<forall>b\<in>set (bs @ [?b]). b \<noteq> [] \<and> length b \<le> THREADS"
      using Cons.prems(4) len by auto
    from Cons.IH [OF a1 a2 a3 a4] show ?thesis
      unfolding step .
  next
    case False
    have a1: "length (threads ?s2) < THREADS"
      using False by simp
    have a2: "trace ?s2 = concat (map (\<lambda>b. map Start b @ map Join b) bs)
                 @ map Start (threads ?s2)"
      using False Cons.prems(2) by simp
    have a3: "concat bs @ threads ?s2 = [0..<started ?s2]"
      using False Cons.prems(3) by simp
    from Cons.IH [OF a1 a2 a3 Cons.prems(4)] show ?thesis
      unfolding step .
  qed
qed

lemma scan_run_batches:
  "\<exists>batches. trace (scan_run ip_addr ports att)
                = concat (map (\<lambda>b. map Start b @ map Join b) batches)
            \<and> concat batches = [0..<length ports]
            \<and> (\<forall>b\<in>set batches. b \<noteq> [] \<and> length b \<le> THREADS)"
proof -
  let ?s0 = "\<lparr>threads = [], started = 0, open_set = [], trace = []\<rparr>"
  let ?s = "scan_loop ip_addr att ports ?s0"
  have "\<exists>bs'. length (threads ?s) < THREADS
            \<and> trace ?s = concat (map (\<lambda>b. map Start b @ map Join b) bs') @ map Start (threads ?s)
            \<and> concat bs' @ threads ?s = [0..<started ?s]
            \<and> (\<forall>b\<in>set bs'. b \<noteq> [] \<and> length b \<le> THREADS)"
    by (rule scan_loop_batches [where bs = "[]"]) (simp_all add: THREADS_def)
  then obtain bs where lt: "length (threads ?s) < THREADS"
    and tr: "trace ?s = concat (map (\<lambda>b. map Start b @ map Join b) bs) @ map Start (threads ?s)"
    and ids: "concat bs @ threads ?s = [0..<started ?s]"
    and bs: "\<forall>b\<in>set bs. b \<noteq> [] \<and> length b \<le> THREADS"
    by blast
  have st: "started ?s = length ports"
    by (simp add: scan_loop_started)
  show ?thesis
  proof (cases "threads ?s = []")
    case True
    with tr ids bs st show ?thesis
      by (intro exI [of _ bs]) (simp add: scan_run_def)
  next
    case False
    with tr ids bs st lt show ?thesis
      by (intro exI [of _ "bs @ [threads ?s]"]) (simp add: scan_run_def)
  qed
qed

lemma ex_less_Suc: "(\<exists>k < Suc n. P k) = (P 0 \<or> (\<exists>k < n. P (Suc k)))"
  by (metis less_Suc_eq_0_disj)

lemma scan_loop_open_set:
  "set (open_set (scan_loop ip_addr att ports s)) =
     set (open_set s) \<union>
     {p. \<exists>k < length ports. ports ! k = p \<and> connected (att (started s + k))
          \<and> 0 \<le> p \<and> p \<le> 65535}"
proof (induction ports arbitrary: s)
  case Nil
  then show ?case by simp
next
  case (Cons port ports)
  show ?case
    by (simp add: Cons.IH Let_def scan_port_set ex_less_Suc) blast
qed

text \<open>
  C6.  At every moment of the scan of a host at most \<open>THREADS\<close> threads are started and
  not yet joined, so at most \<open>THREADS\<close> probes are in flight; and the scan runs in
  batches: every batch starts at most \<open>THREADS\<close> threads and joins all of them before
  the next batch starts, and the batches together start one thread for each port of the
  list, in its order.
\<close>

theorem probes_in_flight_bounded:
  "(\<forall>k. length (running [] (take k (trace (scan_run ip_addr ports att)))) \<le> THREADS)
   \<and> (\<exists>batches. trace (scan_run ip_addr ports att)
                = concat (map (\<lambda>b. map Start b @ map Join b) batches)
            \<and> concat batches = [0..<length ports]
            \<and> (\<forall>b\<in>set batches. b \<noteq> [] \<and> length b \<le> THREADS))"
proof -
  obtain batches where tr: "trace (scan_run ip_addr ports att)
                = concat (map (\<lambda>b. map Start b @ map Join b) batches)"
    and ids: "concat batches = [0..<length ports]"
    and bs: "\<forall>b\<in>set batches. b \<noteq> [] \<and> length b \<le> THREADS"
    using scan_run_batches by blast
  have "\<forall>k. length (running [] (take k (trace (scan_run ip_addr ports att)))) \<le> THREADS"
    unfolding tr using bs by (auto intro: running_batches_prefix)
  with tr ids bs show ?thesis by blast
qed

theorem probes_in_flight_bounded_witness:
  "length (running [] (take 3 (trace (scan_run ''10.0.0.5'' [22, 80, 443]
      (\<lambda>t. if t = 1 then ConnectEx 111 True else ConnectEx 0 True))))) \<le> THREADS"
  using probes_in_flight_bounded
    [of "''10.0.0.5''" "[22, 80, 443]"
        "\<lambda>t. if t = 1 then ConnectEx 111 True else ConnectEx 0 True"]
  by blast

text \<open>
  C7.  A probe never ends with an exception; a probe that does not make its connection
  (the socket cannot be made, \<^verbatim>\<open>connect_ex\<close> raises, or it returns an errno: refused,
  timed out) leaves the set of open ports as it was; and the ports a host is reported
  with are exactly the ports of the list with a probe that connected, so a failed probe
  neither reports its port nor keeps another port from being probed and reported.
\<close>

theorem failed_probe_reads_closed:
  "fst (scan_port ip_addr port found a) = Finished
   \<and> (\<not> connected a \<longrightarrow> snd (scan_port ip_addr port found a) = found)
   \<and> ((p \<in> set (open_ports (scan_host_ports ip_addr ports att now))) =
        (\<exists>k < length ports. ports ! k = p \<and> connected (att k) \<and> 0 \<le> p \<and> p \<le> 65535))"
  by (simp add: scan_port_finished scan_port_failed scan_host_ports_def scan_run_def
      scan_loop_open_set)

theorem failed_probe_reads_closed_witness:
  "snd (scan_port ''10.0.0.5'' 80 [22] (ConnectEx 111 True)) = [22]
   \<and> 80 \<notin> set (open_ports (scan_host_ports ''10.0.0.5'' [22, 80, 443]
        (\<lambda>t. if t = 1 then ConnectEx 111 True else ConnectEx 0 True) ''2024-01-01T00:00:00''))
   \<and> 443 \<in> set (open_ports (scan_host_ports ''10.0.0.5'' [22, 80, 443]
        (\<lambda>t. if t = 1 then ConnectEx 111 True else ConnectEx 0 True) ''2024-01-01T00:00:00''))"
proof -
  let ?att = "\<lambda>t::nat. if t = 1 then ConnectEx 111 True else ConnectEx 0 True"
  have "snd (scan_port ''10.0.0.5'' 80 [22] (ConnectEx 111 True)) = [22]"
    using failed_probe_reads_closed [of "''10.0.0.5''" 80 "[22]" "ConnectEx 111 True"]
    by simp
  moreover have "80 \<notin> set (open_ports (scan_host_ports ''10.0.0.5'' [22, 80, 443]
        ?att ''2024-01-01T00:00:00''))"
    using failed_probe_reads_closed
      [of "''10.0.0.5''" 80 "[22]" "ConnectEx 111 True" 80 "[22, 80, 443]" ?att
          "''2024-01-01T00:00:00''"]
    by (simp add: ex_less_Suc)
  moreover have "443 \<in> set (open_ports (scan_host_ports ''10.0.0.5'' [22, 80, 443]
        ?att ''2024-01-01T00:00:00''))"
    using failed_probe_reads_closed
      [of "''10.0.0.5''" 80 "[22]" "ConnectEx 111 True" 443 "[22, 80, 443]" ?att
          "''2024-01-01T00:00:00''"]
    by (simp add: ex_less_Suc)
  ultimately show ?thesis by blast
qed

section \<open>The run\<close>

text \<open>
  C8.  When the ARP sweep is answered by no host, the run ends without an exception, it
  has scanned no host and written no file (there is no result record), and the last thing
  it prints is the notice that no live host was found.
\<close>

theorem zero_hosts_is_advisory:
  "arp_reply e = Inr [] \<Longrightarrow>
   main network ports output baseline e w =
     (None, w\<lparr>console := console w @ [ScanningNetwork network, NoLiveHosts]\<rparr>)"
  by (simp add: main_def discover_hosts_def Let_def say_def)

theorem zero_hosts_is_advisory_witness:
  "main ''192.168.1.0/24'' [22, 80] ''scan'' None
     \<lparr>arp_reply = Inr [], probe = (\<lambda>i t. ConnectEx 0 True),
      clock = (\<lambda>i. ''2024-01-01T00:00:00''), writable = (\<lambda>p. True)\<rparr>
     \<lparr>files = Map.empty, console = []\<rparr>
   = (None, \<lparr>files = Map.empty,
             console = [ScanningNetwork ''192.168.1.0/24'', NoLiveHosts]\<rparr>)"
  using zero_hosts_is_advisory
    [of "\<lparr>arp_reply = Inr [], probe = (\<lambda>i t. ConnectEx 0 True),
          clock = (\<lambda>i. ''2024-01-01T00:00:00''), writable = (\<lambda>p. True)\<rparr>"
        "''192.168.1.0/24''" "[22, 80]" "''scan''" None
        "\<lparr>files = Map.empty, console = []\<rparr>"]
  by simp

section \<open>The baseline comparison of result sets\<close>

subsection \<open>Sets and dictionaries of ports\<close>

lemma py_eq_refl: "py_eq a a"
  by (cases a) (auto simp: py_eq_def)

lemma py_eq_sym: "py_eq a b \<Longrightarrow> py_eq b a"
  by (cases a; cases b) (auto simp: py_eq_def split: if_splits)

lemma py_eq_trans: "py_eq a b \<Longrightarrow> py_eq b c \<Longrightarrow> py_eq a c"
  by (cases a; cases b; cases c) (auto simp: py_eq_def split: if_splits)

lemma py_eq_HInt [simp]: "py_eq (HInt x) (HInt y) = (x = y)"
  by (simp add: py_eq_def)

lemma py_eq_HStr [simp]: "py_eq (HStr x) (HStr y) = (x = y)"
  by (simp add: py_eq_def)

lemma py_member_iff: "py_member x s = (\<exists>y\<in>set s. py_eq x y)"
  by (simp add: py_member_def list_ex_iff)

lemma py_member_HInt [simp]: "py_member (HInt x) (map HInt ys) = (x \<in> set ys)"
  by (auto simp: py_member_iff)

lemma foldl_py_add_HInt:
  "distinct acc \<Longrightarrow>
   \<exists>ys. foldl py_add (map HInt acc) (map HInt xs) = map HInt ys
        \<and> distinct ys \<and> set ys = set acc \<union> set xs"
proof (induction xs arbitrary: acc)
  case Nil
  then show ?case by auto
next
  case (Cons x xs)
  show ?case
  proof (cases "x \<in> set acc")
    case True
    then have "py_add (map HInt acc) (HInt x) = map HInt acc"
      by (simp add: py_add_def)
    with Cons.IH [OF Cons.prems] True show ?thesis by auto
  next
    case False
    then have "py_add (map HInt acc) (HInt x) = map HInt (acc @ [x])"
      by (simp add: py_add_def)
    moreover have "distinct (acc @ [x])"
      using False Cons.prems by simp
    ultimately show ?thesis
      using Cons.IH [of "acc @ [x]"] by auto
  qed
qed

lemma py_set_HInt:
  "\<exists>ys. py_set (map HInt xs) = map HInt ys \<and> distinct ys \<and> set ys = set xs"
  using foldl_py_add_HInt [of "[]" xs] by (simp add: py_set_def)

lemma py_diff_HInt:
  "py_diff (map HInt a) (map HInt b) = map HInt (filter (\<lambda>x. x \<notin> set b) a)"
  by (simp add: py_diff_def filter_map o_def)

lemma insort_key_HInt:
  "insort_key (\<lambda>x. the (num_of x)) (HInt x) (map HInt ys) = map HInt (insort x ys)"
  by (induction ys) auto

lemma sort_key_HInt:
  "sort_key (\<lambda>x. the (num_of x)) (map HInt xs) = map HInt (sort xs)"
  by (induction xs) (auto simp: sort_key_def insort_key_HInt)

lemma py_sorted_HInt:
  "distinct a \<Longrightarrow> py_sorted (map HInt a) = Inr (map HInt (sorted_list_of_set (set a)))"
proof -
  assume d: "distinct a"
  have s: "sort a = sorted_list_of_set (set a)"
    using d by (simp add: sorted_list_of_set_sort_remdups distinct_remdups_id)
  have all: "list_all (\<lambda>x. num_of x \<noteq> None) (map HInt a)"
    by (simp add: list_all_iff)
  show ?thesis
  proof (cases "length a \<le> 1")
    case True
    then have "a = [] \<or> (\<exists>x. a = [x])"
      by (cases a) (auto simp: length_Suc_conv)
    then show ?thesis
      by (auto simp: py_sorted_def)
  next
    case False
    then show ?thesis
      using all by (simp add: py_sorted_def sort_key_HInt s)
  qed
qed

lemma find_app:
  "find P (xs @ ys) = (case find P xs of None \<Rightarrow> find P ys | Some x \<Rightarrow> Some x)"
  by (induction xs) auto

lemma dict_get_set:
  "dict_get (dict_set d k v) q dflt = (if py_eq q k then v else dict_get d q dflt)"
proof (induction d)
  case Nil
  then show ?case by simp
next
  case (Cons kv d)
  obtain k' v' where kv: "kv = (k', v')" by (cases kv)
  show ?case
  proof (cases "py_eq k k'")
    case True
    then have "py_eq q k' = py_eq q k"
      by (meson py_eq_sym py_eq_trans)
    with True kv show ?thesis by simp
  next
    case False
    then have "py_eq q k' \<Longrightarrow> \<not> py_eq q k"
      by (meson py_eq_sym py_eq_trans)
    with False kv Cons.IH show ?thesis by auto
  qed
qed

subsection \<open>The dictionary of a baseline that is a result set\<close>

lemma hash_all_JInt: "hash_all (map JInt ps) = Inr (map HInt ps)"
  by (induction ps) auto

lemma set_of_json_ports: "set_of_json (JArr (map JInt ps)) = Inr (py_set (map HInt ps))"
  by (simp add: set_of_json_def hash_all_JInt)

lemma old_map_items_record:
  "old_map_items d (encode_record h # js) =
     old_map_items (dict_set d (HStr (ip h)) (py_set (map HInt (open_ports h)))) js"
  by (simp add: encode_record_def set_of_json_ports)

lemma old_map_items_results:
  "\<exists>d'. old_map_items d (map encode_record b) = Inr d'
        \<and> (\<forall>a. dict_get d' (HStr a) [] =
                 (case find (\<lambda>h. ip h = a) (rev b) of
                    None \<Rightarrow> dict_get d (HStr a) []
                  | Some h \<Rightarrow> py_set (map HInt (open_ports h))))"
proof (induction b arbitrary: d)
  case Nil
  then show ?case by simp
next
  case (Cons h b)
  let ?d1 = "dict_set d (HStr (ip h)) (py_set (map HInt (open_ports h)))"
  obtain d' where d': "old_map_items ?d1 (map encode_record b) = Inr d'"
    and get: "\<And>a. dict_get d' (HStr a) [] =
                 (case find (\<lambda>h. ip h = a) (rev b) of
                    None \<Rightarrow> dict_get ?d1 (HStr a) []
                  | Some h \<Rightarrow> py_set (map HInt (open_ports h)))"
    using Cons.IH [of ?d1] by blast
  have "old_map_items d (map encode_record (h # b)) = Inr d'"
    using d' by (simp only: list.map old_map_items_record)
  moreover have "dict_get d' (HStr a) [] =
                 (case find (\<lambda>h. ip h = a) (rev (h # b)) of
                    None \<Rightarrow> dict_get d (HStr a) []
                  | Some h \<Rightarrow> py_set (map HInt (open_ports h)))" for a
    by (simp add: get find_app dict_get_set split: option.splits)
  ultimately show ?case by blast
qed

lemma baseline_lookup:
  "\<exists>d'. build_old_map (encode_results b) = Inr d'
        \<and> (\<forall>a. \<exists>os. dict_get d' (HStr a) [] = map HInt os \<and> distinct os
                    \<and> set os = spec_baseline_ports b a)"
proof -
  obtain d' where d': "old_map_items [] (map encode_record b) = Inr d'"
    and get: "\<And>a. dict_get d' (HStr a) [] =
                 (case find (\<lambda>h. ip h = a) (rev b) of
                    None \<Rightarrow> dict_get [] (HStr a) []
                  | Some h \<Rightarrow> py_set (map HInt (open_ports h)))"
    using old_map_items_results [of "[]" b] by blast
  have "\<exists>os. dict_get d' (HStr a) [] = map HInt os \<and> distinct os
            \<and> set os = spec_baseline_ports b a" for a
  proof (cases "find (\<lambda>h. ip h = a) (rev b)")
    case None
    then show ?thesis
      by (intro exI [of _ "[]"]) (simp add: get spec_baseline_ports_def)
  next
    case (Some h)
    obtain ys where "py_set (map HInt (open_ports h)) = map HInt ys" "distinct ys"
      "set ys = set (open_ports h)"
      using py_set_HInt by blast
    with Some show ?thesis
      by (intro exI [of _ ys]) (simp add: get spec_baseline_ports_def)
  qed
  with d' show ?thesis
    by (auto simp: build_old_map_def encode_results_def)
qed


subsection \<open>The loop over the current results\<close>

lemma compare_loop_step:
  assumes get: "dict_get old_map (HStr (ip h)) [] = map HInt os"
    and os: "distinct os"
  shows "compare_loop old_map changes (h # rest) =
         compare_loop old_map
           (changes @
             (if set (open_ports h) - set os \<noteq> {} \<or> set os - set (open_ports h) \<noteq> {}
              then [\<lparr>change_ip = ip h,
                     added_ports = map HInt (sorted_list_of_set (set (open_ports h) - set os)),
                     removed_ports = map HInt (sorted_list_of_set (set os - set (open_ports h))),
                     detected_at = scanned_at h\<rparr>]
              else []))
           rest"
proof -
  obtain ns where ns: "py_set (map HInt (open_ports h)) = map HInt ns"
    and dns: "distinct ns" and sns: "set ns = set (open_ports h)"
    using py_set_HInt by blast
  let ?a = "filter (\<lambda>x. x \<notin> set os) ns"
  let ?r = "filter (\<lambda>x. x \<notin> set ns) os"
  have a: "py_diff (map HInt ns) (map HInt os) = map HInt ?a"
    by (rule py_diff_HInt)
  have r: "py_diff (map HInt os) (map HInt ns) = map HInt ?r"
    by (rule py_diff_HInt)
  have sa: "set ?a = set (open_ports h) - set os"
    using sns by auto
  have sr: "set ?r = set os - set (open_ports h)"
    using sns by auto
  have ea: "(?a = []) = (set (open_ports h) - set os = {})"
    using sa by (metis set_empty)
  have er: "(?r = []) = (set os - set (open_ports h) = {})"
    using sr by (metis set_empty)
  have pa: "py_sorted (map HInt ?a)
            = Inr (map HInt (sorted_list_of_set (set (open_ports h) - set os)))"
    using dns by (simp only: py_sorted_HInt distinct_filter sa)
  have pr: "py_sorted (map HInt ?r)
            = Inr (map HInt (sorted_list_of_set (set os - set (open_ports h))))"
    using os by (simp only: py_sorted_HInt distinct_filter sr)
  show ?thesis
    by (simp add: get ns a r pa pr ea er Let_def del: set_filter)
qed

lemma compare_loop_results:
  assumes "\<And>a. \<exists>os. dict_get old_map (HStr a) [] = map HInt os \<and> distinct os
                    \<and> set os = spec_baseline_ports b a"
  shows "compare_loop old_map changes current = Inr (changes @ spec_diff current b)"
proof (induction current arbitrary: changes)
  case Nil
  then show ?case by (simp add: spec_diff_def)
next
  case (Cons h rest)
  obtain os where get: "dict_get old_map (HStr (ip h)) [] = map HInt os"
    and os: "distinct os" and sos: "set os = spec_baseline_ports b (ip h)"
    using assms by blast
  show ?case
    by (simp only: compare_loop_step [OF get os] Cons.IH)
       (simp add: spec_diff_def spec_change_def sos Let_def)
qed

lemma compare_result_set:
  assumes "files w path = Some (JsonFile (encode_results baseline))" and "path \<noteq> []"
  shows "compare_with_baseline current (Some path) w = (Inr (spec_diff current baseline), w)"
proof -
  obtain d' where d': "build_old_map (encode_results baseline) = Inr d'"
    and get: "\<And>a. \<exists>os. dict_get d' (HStr a) [] = map HInt os \<and> distinct os
                    \<and> set os = spec_baseline_ports baseline a"
    using baseline_lookup [of baseline] by blast
  have "compare_loop d' [] current = Inr ([] @ spec_diff current baseline)"
    using get by (rule compare_loop_results)
  with assms d' show ?thesis
    by (simp add: compare_with_baseline_def load_baseline_def)
qed






lemma spec_diff_hosts: "change_ip ` set (spec_diff current baseline) \<subseteq> ip ` set current"
  by (auto simp: spec_diff_def spec_change_def Let_def split: if_splits)

lemma py_sorted_set: "py_sorted s = Inr t \<Longrightarrow> set t = set s"
  by (auto simp: py_sorted_def split: if_splits)

lemma py_diff_disjoint:
  assumes "x \<in> set (py_diff new old)"
  shows "\<not> py_member x (py_diff old new)"
proof
  assume "py_member x (py_diff old new)"
  then obtain y where "y \<in> set old" and "py_eq x y"
    by (auto simp: py_member_iff py_diff_def)
  then have "py_member x old"
    by (auto simp: py_member_iff)
  with assms show False
    by (simp add: py_diff_def)
qed

lemma compare_loop_disjoint:
  assumes "compare_loop old_map changes current = Inr res"
    and "\<forall>c\<in>set changes. \<forall>x\<in>set (added_ports c). \<not> py_member x (removed_ports c)"
  shows "\<forall>c\<in>set res. \<forall>x\<in>set (added_ports c). \<not> py_member x (removed_ports c)"
  using assms
proof (induction current arbitrary: changes)
  case Nil
  then show ?case by simp
next
  case (Cons h rest)
  let ?new = "py_set (map HInt (open_ports h))"
  let ?old = "dict_get old_map (HStr (ip h)) []"
  show ?case
  proof (cases "py_diff ?new ?old \<noteq> [] \<or> py_diff ?old ?new \<noteq> []")
    case False
    with Cons.prems(1) have "compare_loop old_map changes rest = Inr res"
      by (simp add: Let_def)
    then show ?thesis
      using Cons.prems(2) by (rule Cons.IH)
  next
    case True
    with Cons.prems(1) obtain a r where a: "py_sorted (py_diff ?new ?old) = Inr a"
      and r: "py_sorted (py_diff ?old ?new) = Inr r"
      and rest: "compare_loop old_map
                   (changes @ [\<lparr>change_ip = ip h, added_ports = a, removed_ports = r,
                                detected_at = scanned_at h\<rparr>]) rest = Inr res"
      by (auto simp: Let_def split: sum.splits)
    have "\<forall>x\<in>set a. \<not> py_member x r"
      using py_diff_disjoint [of _ ?new ?old] py_sorted_set [OF a] py_sorted_set [OF r]
      by (simp add: py_member_iff)
    with Cons.prems(2)
    have "\<forall>c\<in>set (changes @ [\<lparr>change_ip = ip h, added_ports = a, removed_ports = r,
                                detected_at = scanned_at h\<rparr>]).
            \<forall>x\<in>set (added_ports c). \<not> py_member x (removed_ports c)"
      by simp
    with rest show ?thesis
      by (rule Cons.IH)
  qed
qed

lemma compare_disjoint:
  assumes "compare_with_baseline current baseline_path w = (Inr changes, w')"
    and "c \<in> set changes" and "x \<in> set (added_ports c)"
  shows "\<not> py_member x (removed_ports c)"
proof -
  have "changes = [] \<or> (\<exists>old_map. compare_loop old_map [] current = Inr changes)"
    using assms(1)
    by (auto simp: compare_with_baseline_def split: option.splits if_splits sum.splits)
  with assms(2) obtain old_map where "compare_loop old_map [] current = Inr changes"
    by auto
  then have "\<forall>c\<in>set changes. \<forall>x\<in>set (added_ports c). \<not> py_member x (removed_ports c)"
    by (rule compare_loop_disjoint) simp
  with assms(2,3) show ?thesis by blast
qed


text \<open>
  C1.  With a baseline file that holds a result set, the comparison returns, for the hosts
  of the current results in their order, the change records of the specification: for
  each host \<open>added\<close> is its current ports without its baseline ports and \<open>removed\<close>
  its baseline ports without its current ports, the baseline ports being the empty set
  for a host the baseline does not have; the host has a record exactly when one of the
  two is not empty, and the record's \<open>detected_at\<close> is the host's \<open>scanned_at\<close>.
\<close>

theorem diff_of_result_sets:
  "files w path = Some (JsonFile (encode_results baseline)) \<Longrightarrow> path \<noteq> [] \<Longrightarrow>
   compare_with_baseline current (Some path) w = (Inr (spec_diff current baseline), w)"
  by (rule compare_result_set)

theorem diff_of_result_sets_witness:
  "compare_with_baseline
     [\<lparr>ip = ''10.0.0.5'', open_ports = [22, 8080], scanned_at = ''2024-02-01T00:00:00''\<rparr>]
     (Some ''base.json'')
     \<lparr>files = [''base.json'' \<mapsto> JsonFile (encode_results
         [\<lparr>ip = ''10.0.0.5'', open_ports = [22, 80], scanned_at = ''2024-01-01T00:00:00''\<rparr>])],
      console = []\<rparr>
   = (Inr [\<lparr>change_ip = ''10.0.0.5'', added_ports = [HInt 8080], removed_ports = [HInt 80],
             detected_at = ''2024-02-01T00:00:00''\<rparr>],
      \<lparr>files = [''base.json'' \<mapsto> JsonFile (encode_results
         [\<lparr>ip = ''10.0.0.5'', open_ports = [22, 80], scanned_at = ''2024-01-01T00:00:00''\<rparr>])],
       console = []\<rparr>)"
proof -
  let ?base = "[\<lparr>ip = ''10.0.0.5'', open_ports = [22, 80], scanned_at = ''2024-01-01T00:00:00''\<rparr>]"
  let ?cur = "[\<lparr>ip = ''10.0.0.5'', open_ports = [22, 8080], scanned_at = ''2024-02-01T00:00:00''\<rparr>]"
  let ?w = "\<lparr>files = [''base.json'' \<mapsto> JsonFile (encode_results ?base)], console = []\<rparr>"
  have sd: "spec_diff ?cur ?base
            = [\<lparr>change_ip = ''10.0.0.5'', added_ports = [HInt 8080], removed_ports = [HInt 80],
                 detected_at = ''2024-02-01T00:00:00''\<rparr>]"
    by code_simp
  have "files ?w ''base.json'' = Some (JsonFile (encode_results ?base))"
    by simp
  moreover have "''base.json'' \<noteq> []"
    by simp
  ultimately have "compare_with_baseline ?cur (Some ''base.json'') ?w
                   = (Inr (spec_diff ?cur ?base), ?w)"
    by (rule diff_of_result_sets)
  then show ?thesis
    by (simp only: sd)
qed

text \<open>
  C4.  A host that is not among the current results has no change record, whether or not
  the baseline has it: the comparison of two result sets returns, and no record of the
  list it returns carries that host's address.
\<close>

theorem vanished_host_not_reported:
  "files w path = Some (JsonFile (encode_results baseline)) \<Longrightarrow> path \<noteq> [] \<Longrightarrow>
   a \<notin> ip ` set current \<Longrightarrow>
   \<exists>changes. compare_with_baseline current (Some path) w = (Inr changes, w)
            \<and> a \<notin> change_ip ` set changes"
  using compare_result_set [of w path baseline current] spec_diff_hosts [of current baseline]
  by auto

theorem vanished_host_not_reported_witness:
  "\<exists>changes.
     compare_with_baseline
       [\<lparr>ip = ''10.0.0.5'', open_ports = [22, 8080], scanned_at = ''2024-02-01T00:00:00''\<rparr>]
       (Some ''base.json'')
       \<lparr>files = [''base.json'' \<mapsto> JsonFile (encode_results
           [\<lparr>ip = ''10.0.0.5'', open_ports = [22, 80], scanned_at = ''2024-01-01T00:00:00''\<rparr>,
            \<lparr>ip = ''10.0.0.9'', open_ports = [443], scanned_at = ''2024-01-01T00:00:05''\<rparr>])],
        console = []\<rparr>
     = (Inr changes,
        \<lparr>files = [''base.json'' \<mapsto> JsonFile (encode_results
           [\<lparr>ip = ''10.0.0.5'', open_ports = [22, 80], scanned_at = ''2024-01-01T00:00:00''\<rparr>,
            \<lparr>ip = ''10.0.0.9'', open_ports = [443], scanned_at = ''2024-01-01T00:00:05''\<rparr>])],
         console = []\<rparr>)
     \<and> ''10.0.0.9'' \<notin> change_ip ` set changes"
proof -
  let ?base = "[\<lparr>ip = ''10.0.0.5'', open_ports = [22, 80], scanned_at = ''2024-01-01T00:00:00''\<rparr>,
            \<lparr>ip = ''10.0.0.9'', open_ports = [443], scanned_at = ''2024-01-01T00:00:05''\<rparr>]"
  let ?cur = "[\<lparr>ip = ''10.0.0.5'', open_ports = [22, 8080], scanned_at = ''2024-02-01T00:00:00''\<rparr>]"
  let ?w = "\<lparr>files = [''base.json'' \<mapsto> JsonFile (encode_results ?base)], console = []\<rparr>"
  have "files ?w ''base.json'' = Some (JsonFile (encode_results ?base))"
    by simp
  moreover have "''base.json'' \<noteq> []"
    by simp
  moreover have "''10.0.0.9'' \<notin> ip ` set ?cur"
    by simp
  ultimately show ?thesis
    by (rule vanished_host_not_reported)
qed




text \<open>
  C10.  In every change record the comparison returns, whatever the baseline file holds,
  no added port is equal (for Python, and so also literally) to a removed port.
\<close>

theorem added_and_removed_disjoint:
  "compare_with_baseline current baseline_path w = (Inr changes, w') \<Longrightarrow>
   c \<in> set changes \<Longrightarrow>
   (\<forall>x\<in>set (added_ports c). \<not> py_member x (removed_ports c))
   \<and> set (added_ports c) \<inter> set (removed_ports c) = {}"
proof -
  assume run: "compare_with_baseline current baseline_path w = (Inr changes, w')"
    and c: "c \<in> set changes"
  have no: "\<forall>x\<in>set (added_ports c). \<not> py_member x (removed_ports c)"
    using compare_disjoint [OF run c] by blast
  moreover have "set (added_ports c) \<inter> set (removed_ports c) = {}"
    using no py_eq_refl by (auto simp: py_member_iff)
  ultimately show ?thesis by blast
qed

theorem added_and_removed_disjoint_witness:
  "\<not> py_member (HInt 8080) [HInt 80] \<and> set [HInt 8080] \<inter> set [HInt 80] = {}"
proof -
  let ?base = "[\<lparr>ip = ''10.0.0.5'', open_ports = [22, 80], scanned_at = ''2024-01-01T00:00:00''\<rparr>]"
  let ?cur = "[\<lparr>ip = ''10.0.0.5'', open_ports = [22, 8080], scanned_at = ''2024-02-01T00:00:00''\<rparr>]"
  let ?w = "\<lparr>files = [''base.json'' \<mapsto> JsonFile (encode_results ?base)], console = []\<rparr>"
  let ?c = "\<lparr>change_ip = ''10.0.0.5'', added_ports = [HInt 8080], removed_ports = [HInt 80],
             detected_at = ''2024-02-01T00:00:00''\<rparr>"
  have sd: "spec_diff ?cur ?base = [?c]"
    by code_simp
  have "compare_with_baseline ?cur (Some ''base.json'') ?w = (Inr (spec_diff ?cur ?base), ?w)"
    by (rule compare_result_set) simp_all
  then have run: "compare_with_baseline ?cur (Some ''base.json'') ?w = (Inr [?c], ?w)"
    by (simp only: sd)
  have "?c \<in> set [?c]"
    by simp
  with run have "(\<forall>x\<in>set (added_ports ?c). \<not> py_member x (removed_ports ?c))
                 \<and> set (added_ports ?c) \<inter> set (removed_ports ?c) = {}"
    by (rule added_and_removed_disjoint)
  then show ?thesis by simp
qed

section \<open>The results of a run\<close>

lemma say_files: "files (say m w) = files w"
  by (simp add: say_def)

lemma scan_hosts_ips:
  "map ip (fst (scan_hosts e ports i hosts results w)) = map ip results @ hosts"
  by (induction hosts arbitrary: i results w) (simp_all add: Let_def scan_host_ports_def)

lemma compare_files:
  "compare_with_baseline current baseline_path w = (r, w') \<Longrightarrow> files w' = files w"
  by (auto simp: compare_with_baseline_def say_def split: option.splits sum.splits if_splits)

lemma save_json_files:
  "save_json doc path wr w = (r, w') \<Longrightarrow>
   files w' p = (if wr path \<and> p = path then Some (JsonFile doc) else files w p)"
  by (auto simp: save_json_def say_def split: if_splits)

lemma save_csv_files:
  "save_csv results path wr w = (r, w') \<Longrightarrow> p \<noteq> path \<Longrightarrow> files w' p = files w p"
  by (auto simp: save_csv_def say_def split: if_splits)

lemma unreadable_baseline_skipped:
  "load_baseline path w = None \<Longrightarrow> path \<noteq> [] \<Longrightarrow>
   compare_with_baseline current (Some path) w = (Inr [], say (CouldNotLoadBaseline path) w)"
  by (simp add: compare_with_baseline_def)

text \<open>
  C2, as the code has it.  When the ARP sweep is answered and the results file can be
  written, the run leaves in \<^verbatim>\<open>output.json\<close> a result set with one record for each
  answer, ordered ascending by the address read as a string (by character, so
  \<^verbatim>\<open>192.168.1.10\<close> comes before \<^verbatim>\<open>192.168.1.9\<close>), whatever the order of the answers.
\<close>

theorem results_sorted_as_strings:
  assumes arp: "arp_reply e = Inr psrcs" and some: "psrcs \<noteq> []"
    and wr: "writable e (output @ ''.json'')"
  shows "\<exists>results.
           files (snd (main network ports output baseline e w)) (output @ ''.json'')
             = Some (JsonFile (encode_results results))
           \<and> map ip results = sort psrcs \<and> sorted (map ip results)"
proof -
  let ?w2 = "say (FoundLiveHosts (length psrcs)) (say (ScanningNetwork network) w)"
  obtain results w3 where rs: "scan_hosts e ports 0 (sort psrcs) [] ?w2 = (results, w3)"
    by (cases "scan_hosts e ports 0 (sort psrcs) [] ?w2")
  have ips: "map ip results = sort psrcs"
    using scan_hosts_ips [of e ports 0 "sort psrcs" "[]" ?w2] rs by simp
  have ne: "sort psrcs \<noteq> []"
    using some by (metis length_sort length_0_conv)
  let ?jp = "output @ ''.json''"
  obtain w4 where w4: "save_json (encode_results results) ?jp (writable e) w3 = (None, w4)"
    and f4: "files w4 ?jp = Some (JsonFile (encode_results results))"
    using wr by (simp add: save_json_def say_def)
  obtain r5 w5 where w5: "save_csv results (output @ ''.csv'') (writable e) w4 = (r5, w5)"
    by (cases "save_csv results (output @ ''.csv'') (writable e) w4")
  have f5: "files w5 ?jp = Some (JsonFile (encode_results results))"
    using save_csv_files [OF w5, of ?jp] f4 by simp
  obtain r6 w6 where w6: "compare_with_baseline results baseline w5 = (r6, w6)"
    by (cases "compare_with_baseline results baseline w5")
  have f6: "files w6 ?jp = Some (JsonFile (encode_results results))"
    using compare_files [OF w6] f5 by simp
  have "files (snd (main network ports output baseline e w)) ?jp
          = Some (JsonFile (encode_results results))"
  proof (cases r5)
    case (Some err)
    then show ?thesis
      using f5 by (simp add: main_def discover_hosts_def Let_def arp ne rs w4 w5)
  next
    case None
    note r5 = None
    show ?thesis
    proof (cases r6)
      case (Inl err)
      then show ?thesis
        using f6 by (simp add: main_def discover_hosts_def Let_def arp ne rs w4 w5 r5 w6)
    next
      case (Inr changes)
      obtain r7 w7 where w7: "save_json (encode_changes changes) (output @ ''_changes.json'')
                                (writable e) w6 = (r7, w7)"
        by (cases "save_json (encode_changes changes) (output @ ''_changes.json'')
                     (writable e) w6")
      have f7: "files w7 ?jp = Some (JsonFile (encode_results results))"
        using save_json_files [OF w7, of ?jp] f6 by simp
      show ?thesis
        using f6 f7 Inr
        by (cases r7)
           (simp_all add: main_def discover_hosts_def Let_def arp ne rs w4 w5 r5 w6 w7 say_files)
    qed
  qed
  moreover have "sorted (map ip results)"
    by (simp add: ips)
  ultimately show ?thesis
    using ips by blast
qed


theorem results_sorted_as_strings_witness:
  "\<exists>results.
     files (snd (main ''192.168.1.0/24'' [22] ''scan'' None
        \<lparr>arp_reply = Inr [''192.168.1.9'', ''192.168.1.10''],
         probe = (\<lambda>i t. ConnectEx 0 True), clock = (\<lambda>i. ''2024-01-01T00:00:00''),
         writable = (\<lambda>p. True)\<rparr>
        \<lparr>files = Map.empty, console = []\<rparr>)) ''scan.json''
       = Some (JsonFile (encode_results results))
     \<and> map ip results = [''192.168.1.10'', ''192.168.1.9'']
     \<and> sorted (map ip results)"
proof -
  have s: "sort [''192.168.1.9'', ''192.168.1.10''] = [''192.168.1.10'', ''192.168.1.9'']"
    by code_simp
  show ?thesis
    using results_sorted_as_strings
      [of "\<lparr>arp_reply = Inr [''192.168.1.9'', ''192.168.1.10''],
         probe = (\<lambda>i t. ConnectEx 0 True), clock = (\<lambda>i. ''2024-01-01T00:00:00''),
         writable = (\<lambda>p. True)\<rparr>"
        "[''192.168.1.9'', ''192.168.1.10'']" "''scan''" "''192.168.1.0/24''" "[22]" None
        "\<lparr>files = Map.empty, console = []\<rparr>"]
    by (simp add: s)
qed

text \<open>
  C2 as stated fails: answered by 192.168.1.9 and 192.168.1.10, the run writes the record
  of 192.168.1.10 first, and its numeric value is the greater one.
\<close>

theorem results_not_in_numeric_order:
  "files (snd (main ''192.168.1.0/24'' [22] ''scan'' None
        \<lparr>arp_reply = Inr [''192.168.1.9'', ''192.168.1.10''],
         probe = (\<lambda>i t. ConnectEx 0 True), clock = (\<lambda>i. ''2024-01-01T00:00:00''),
         writable = (\<lambda>p. True)\<rparr>
        \<lparr>files = Map.empty, console = []\<rparr>)) ''scan.json''
     = Some (JsonFile (encode_results
         [\<lparr>ip = ''192.168.1.10'', open_ports = [22], scanned_at = ''2024-01-01T00:00:00''\<rparr>,
          \<lparr>ip = ''192.168.1.9'', open_ports = [22], scanned_at = ''2024-01-01T00:00:00''\<rparr>]))
   \<and> ipv4_value ''192.168.1.10'' = Some 3232235786
   \<and> ipv4_value ''192.168.1.9'' = Some 3232235785
   \<and> \<not> numeric_le ''192.168.1.10'' ''192.168.1.9''"
  by code_simp

text \<open>
  C3.  A baseline file that decodes but does not have the expected shape (here a list
  with an object that has no \<^verbatim>\<open>ip\<close> key) is not skipped: the \<^verbatim>\<open>KeyError\<close> of line 122
  leaves \<^verbatim>\<open>compare_with_baseline\<close> and ends the run, after the results were saved.
  (A file that is missing or does not decode is skipped: \<open>unreadable_baseline_skipped\<close>.)
\<close>

theorem wrong_shape_baseline_raises:
  "fst (compare_with_baseline
     [\<lparr>ip = ''10.0.0.5'', open_ports = [22], scanned_at = ''2024-01-01T00:00:00''\<rparr>]
     (Some ''old.json'')
     \<lparr>files = [''old.json'' \<mapsto> JsonFile (JArr [JObj [(''host'', JStr ''10.0.0.5'')]])],
      console = []\<rparr>) = Inl KeyError
   \<and> fst (main ''10.0.0.0/24'' [22] ''scan'' (Some ''old.json'')
        \<lparr>arp_reply = Inr [''10.0.0.5''],
         probe = (\<lambda>i t. ConnectEx 0 True), clock = (\<lambda>i. ''2024-01-01T00:00:00''),
         writable = (\<lambda>p. True)\<rparr>
        \<lparr>files = [''old.json'' \<mapsto> JsonFile (JArr [JObj [(''host'', JStr ''10.0.0.5'')]])],
         console = []\<rparr>) = Some KeyError
   \<and> files (snd (main ''10.0.0.0/24'' [22] ''scan'' (Some ''old.json'')
        \<lparr>arp_reply = Inr [''10.0.0.5''],
         probe = (\<lambda>i t. ConnectEx 0 True), clock = (\<lambda>i. ''2024-01-01T00:00:00''),
         writable = (\<lambda>p. True)\<rparr>
        \<lparr>files = [''old.json'' \<mapsto> JsonFile (JArr [JObj [(''host'', JStr ''10.0.0.5'')]])],
         console = []\<rparr>)) ''scan.json''
     = Some (JsonFile (encode_results
         [\<lparr>ip = ''10.0.0.5'', open_ports = [22], scanned_at = ''2024-01-01T00:00:00''\<rparr>]))"
  by code_simp

end
